theory Spec2Isabelle
  imports Main "HOL-Library.Sublist"
begin

section \<open>JavaScript strings, sets and regular expressions\<close>

text \<open>
  A JavaScript string is modelled as a \<^typ>\<open>string\<close>: a list of code units, here the
  code units below 256.  \<open>s.includes(p)\<close> is the contiguous-substring test,
  \<open>s.endsWith(p)\<close> the suffix test.
\<close>

definition str_includes :: "string \<Rightarrow> string \<Rightarrow> bool" where
  "str_includes s p = sublist p s"

definition endsWith :: "string \<Rightarrow> string \<Rightarrow> bool" where
  "endsWith s p = suffix p s"

text \<open>The double quote and the single quote, which the patterns below mention.\<close>

definition dq :: char where
  "dq = CHR 0x22"

definition sq :: char where
  "sq = CHR 0x27"

text \<open>\<open>\s\<close>, \<open>\w\<close> and \<open>[a-zA-Z]\<close> of a regular expression without the \<open>u\<close> and \<open>i\<close> flags.\<close>

definition is_space :: "char \<Rightarrow> bool" where
  "is_space c = (c \<in> set [CHR 0x09, CHR 0x0A, CHR 0x0B, CHR 0x0C, CHR 0x0D, CHR 0x20, CHR 0xA0])"

definition is_alpha :: "char \<Rightarrow> bool" where
  "is_alpha c = (let n = (of_char c :: nat) in (65 \<le> n \<and> n \<le> 90) \<or> (97 \<le> n \<and> n \<le> 122))"

definition is_word :: "char \<Rightarrow> bool" where
  "is_word c = (let n = (of_char c :: nat) in
     (48 \<le> n \<and> n \<le> 57) \<or> (65 \<le> n \<and> n \<le> 90) \<or> n = 95 \<or> (97 \<le> n \<and> n \<le> 122))"

text \<open>\<open>toLowerCase\<close> on the code units below 256.\<close>

definition lower_char :: "char \<Rightarrow> char" where
  "lower_char c = (let n = (of_char c :: nat) in
     if (65 \<le> n \<and> n \<le> 90) \<or> (192 \<le> n \<and> n \<le> 222 \<and> n \<noteq> 215) then char_of (n + 32) else c)"

definition toLowerCase :: "string \<Rightarrow> string" where
  "toLowerCase s = map lower_char s"

text \<open>\<open>text.slice(1, -1)\<close>: the string without its first and its last code unit.\<close>

definition slice_1_m1 :: "string \<Rightarrow> string" where
  "slice_1_m1 s = butlast (tl s)"

text \<open>
  A JavaScript \<open>Set\<close> of strings iterates in insertion order, so it is a list without
  duplicates; \<open>add\<close> appends a new element and leaves the set alone otherwise.
\<close>

definition set_add :: "string \<Rightarrow> string list \<Rightarrow> string list" where
  "set_add x xs = (if x \<in> set xs then xs else xs @ [x])"

definition join_comma :: "string list \<Rightarrow> string" where
  "join_comma xs = (case xs of [] \<Rightarrow> [] | y # ys \<Rightarrow> y @ concat (map (\<lambda>z. '', '' @ z) ys))"

text \<open>
  A regular expression is modelled by its matcher at one position: given the text from
  that position on, the captured groups and the length of the match, or \<open>None\<close>.
  The loop \<open>while ((m = re.exec(s)) !== null)\<close> of a global expression visits the
  leftmost match from \<open>lastIndex\<close> on, then continues behind it.  Every expression of
  this program consumes at least one code unit; \<open>max 1\<close> keeps the recursion total
  for an arbitrary matcher.
\<close>

type_synonym 'c matcher = "string \<Rightarrow> ('c \<times> nat) option"

function exec_loop :: "'c matcher \<Rightarrow> string \<Rightarrow> 'c list" where
  "exec_loop m s =
     (if s = [] then []
      else case m s of
             None \<Rightarrow> exec_loop m (tl s)
           | Some (c, n) \<Rightarrow> c # exec_loop m (drop (max 1 n) s))"
  by pat_completeness auto
termination
  by (relation "measure (\<lambda>(m, s). length s)") auto

text \<open>
  The same loop for an expression object whose \<open>lastIndex\<close> is kept between loops:
  the matches from \<open>lastIndex\<close> on, and the \<open>lastIndex\<close> the failing last \<open>exec\<close>
  leaves behind, which is 0.
\<close>

definition exec_all :: "'c matcher \<Rightarrow> string \<Rightarrow> nat \<Rightarrow> 'c list \<times> nat" where
  "exec_all m s lastIndex =
     (if lastIndex > length s then ([], 0) else (exec_loop m (drop lastIndex s), 0))"

text \<open>\<open>s.match(re)\<close> for an expression without the global flag: the leftmost match.\<close>

fun match_first :: "'c matcher \<Rightarrow> string \<Rightarrow> 'c option" where
  "match_first m [] = None"
| "match_first m (x # xs) =
     (case m (x # xs) of None \<Rightarrow> match_first m xs | Some (c, n) \<Rightarrow> Some c)"

definition strip_prefix :: "string \<Rightarrow> string \<Rightarrow> string option" where
  "strip_prefix p s = (if prefix p s then Some (drop (length p) s) else None)"

section \<open>The registries\<close>

definition FLUTTER_WIDGETS :: "string list" where
  "FLUTTER_WIDGETS =
    [''Widget'', ''StatelessWidget'', ''StatefulWidget'',
     ''MaterialApp'', ''Scaffold'', ''AppBar'', ''Container'', ''Row'', ''Column'', ''Text'',
     ''ListView'', ''Stack'', ''Card'', ''ListTile'', ''FloatingActionButton'',
     ''BottomNavigationBar'', ''Drawer'', ''SnackBar'', ''AlertDialog'', ''TextField'',
     ''ElevatedButton'', ''TextButton'', ''IconButton'', ''OutlinedButton'',
     ''Padding'', ''Center'', ''Align'', ''SizedBox'', ''Expanded'', ''Flexible'', ''Wrap'',
     ''GridView'', ''CustomScrollView'', ''SingleChildScrollView'',
     ''Navigator'', ''Route'', ''MaterialPageRoute'', ''CupertinoPageRoute'',
     ''ChangeNotifier'', ''ValueNotifier'', ''StreamBuilder'', ''FutureBuilder'',
     ''AnimationController'', ''Animation'', ''Tween'', ''AnimatedBuilder'',
     ''FutureBuilder'', ''StreamBuilder'',
     ''GestureDetector'', ''InkWell'', ''DragTarget'', ''Draggable'',
     ''Image'', ''Icon'', ''AssetImage'', ''NetworkImage'']"

definition DART_stateManagement :: "string list" where
  "DART_stateManagement =
    [''ChangeNotifier'', ''ValueNotifier'', ''StreamController'', ''BehaviorSubject'',
     ''Store'', ''Cubit'', ''Bloc'', ''StateNotifier'', ''ChangeNotifierProvider'',
     ''Provider'', ''GetxController'', ''MobXStore'', ''Riverpod'']"

definition DART_annotations :: "string list" where
  "DART_annotations =
    [''@immutable'', ''@required'', ''@override'', ''@visibleForTesting'', ''@protected'',
     ''@mustCallSuper'', ''@factory'', ''@HiveType'', ''@JsonSerializable'']"

definition ANDROID_COMPONENTS :: "string list" where
  "ANDROID_COMPONENTS =
    [''Activity'', ''Fragment'', ''Service'', ''BroadcastReceiver'', ''ContentProvider'',
     ''Application'']"

definition WEB_ELEMENTS :: "string list" where
  "WEB_ELEMENTS =
    [''div'', ''span'', ''p'', ''a'', ''button'', ''input'', ''form'', ''img'',
     ''h1'', ''h2'', ''h3'', ''h4'', ''h5'', ''h6'', ''ul'', ''ol'', ''li'',
     ''table'', ''tr'', ''td'', ''th'', ''nav'', ''header'', ''footer'', ''main'',
     ''section'', ''article'', ''aside'', ''label'', ''select'', ''option'', ''textarea'',
     ''br'', ''hr'', ''canvas'', ''svg'', ''path'', ''circle'', ''rect'', ''video'',
     ''audio'', ''source'', ''iframe'', ''script'', ''style'', ''link'', ''meta'', ''title'',
     ''head'', ''body'', ''html'']"

definition has :: "string list \<Rightarrow> string \<Rightarrow> bool" where
  "has registry x = (x \<in> set registry)"

section \<open>The data model\<close>

text \<open>
  An optional property of the TypeScript interfaces is an \<open>option\<close>: \<open>None\<close> is the
  absent (or \<open>undefined\<close>) property, which the serialised report leaves out, and
  \<open>Some []\<close> a present, empty list.
\<close>

record SymbolInfo =
  name :: string
  kind :: string
  properties :: "string list option"
  methods :: "string list option"
  extends :: "string option"
  isWidget :: "bool option"
  isStateful :: "bool option"
  isStateless :: "bool option"
  androidComponent :: "string option"
  stateManagement :: "string option"
  hasTests :: "bool option"
  annotations :: "string list option"
  dependencies :: "string list option"

text \<open>An element of \<open>imports\<close> is a bare source string or an \<open>ImportInfo\<close> object.\<close>

datatype import_entry =
  Bare string
| ImportInfo (source: string) (specifiers: "string list option")

record AndroidManifest =
  package :: "string option"
  components :: "string list option"

record FileInfo =
  "file" :: string
  symbols :: "SymbolInfo list option"
  "imports" :: "import_entry list option"
  hasJsx :: "bool option"
  jsxElements :: "string list option"
  isDartFile :: "bool option"
  isFlutterFile :: "bool option"
  isAndroidFile :: "bool option"
  androidManifest :: "AndroidManifest option"
  isTestFile :: "bool option"
  hasWidgetTests :: "bool option"
  statePattern :: "string option"

text \<open>The object literal \<open>{ name, kind }\<close>: every other property absent.\<close>

definition symbol :: "string \<Rightarrow> string \<Rightarrow> SymbolInfo" where
  "symbol n k =
     \<lparr>name = n, kind = k, properties = None, methods = None, extends = None,
      isWidget = None, isStateful = None, isStateless = None, androidComponent = None,
      stateManagement = None, hasTests = None, annotations = None, dependencies = None\<rparr>"

section \<open>The regular expressions of the heuristic extractors\<close>

text \<open>
  \<open>\s+KW\s+(\w+)\<close>, the body of the optional groups \<open>extends\<close> and \<open>implements\<close>:
  white space and word characters are disjoint from what follows them, so each greedy
  run is maximal.  The result is the captured word and the length of the group.
\<close>

definition grp_word :: "string \<Rightarrow> string \<Rightarrow> (string \<times> nat) option" where
  "grp_word kw r =
     (let ws1 = takeWhile is_space r in
      if ws1 = [] then None
      else case strip_prefix kw (dropWhile is_space r) of
             None \<Rightarrow> None
           | Some r2 \<Rightarrow>
               (let ws2 = takeWhile is_space r2; w = takeWhile is_word (dropWhile is_space r2) in
                if ws2 = [] \<or> w = [] then None
                else Some (w, length ws1 + length kw + length ws2 + length w)))"

text \<open>
  \<open>\s+KW\s+([^{]+)\<close>: when the white space behind the keyword is followed by \<open>{\<close> or by
  the end of the text, \<open>\s+\<close> gives its last code unit back to \<open>[^{]+\<close>, which needs
  one; with a single white space the group fails.
\<close>

definition grp_upto_brace :: "string \<Rightarrow> string \<Rightarrow> (string \<times> nat) option" where
  "grp_upto_brace kw r =
     (let ws1 = takeWhile is_space r in
      if ws1 = [] then None
      else case strip_prefix kw (dropWhile is_space r) of
             None \<Rightarrow> None
           | Some r2 \<Rightarrow>
               (let ws2 = takeWhile is_space r2;
                    body = takeWhile (\<lambda>c. c \<noteq> CHR ''{'') (dropWhile is_space r2) in
                if ws2 = [] then None
                else if body \<noteq> [] then
                  Some (body, length ws1 + length kw + length ws2 + length body)
                else if length ws2 \<ge> 2 then
                  Some ([last ws2], length ws1 + length kw + length ws2)
                else None))"

text \<open>\<open>class\s+(\w+)\<close>: the class name, the length of the match and the text behind it.\<close>

definition class_head :: "string \<Rightarrow> (string \<times> nat \<times> string) option" where
  "class_head s =
     (case strip_prefix ''class'' s of
        None \<Rightarrow> None
      | Some r \<Rightarrow>
          (let ws = takeWhile is_space r; r1 = dropWhile is_space r;
               nm = takeWhile is_word r1 in
           if ws = [] \<or> nm = [] then None
           else Some (nm, 5 + length ws + length nm, dropWhile is_word r1)))"

text \<open>
  An optional group \<open>(?:...)?\<close>: tried once, greedily, and skipped when it fails.  The
  result is the capture (absent when the group is skipped), the length the group
  consumed and the text behind it.
\<close>

definition opt_group ::
    "(string \<Rightarrow> (string \<times> nat) option) \<Rightarrow> string \<Rightarrow> string option \<times> nat \<times> string" where
  "opt_group g r =
     (case g r of None \<Rightarrow> (None, 0, r) | Some (w, n) \<Rightarrow> (Some w, n, drop n r))"

text \<open>
  \<open>/class\s+(\w+)(?:\s+extends\s+(\w+))?(?:\s+implements\s+(\w+))?(?:\s+with\s+([^{]+))?/g\<close>
  of \<open>parseDartFile\<close>.  Since everything behind the class name is optional, the first
  attempt succeeds and nothing is backtracked.  The captures are \<open>className\<close>,
  \<open>extendsClass\<close>, \<open>implementsClass\<close> and \<open>mixins\<close>.
\<close>

definition dart_classRegex ::
    "(string \<times> string option \<times> string option \<times> string option) matcher" where
  "dart_classRegex s =
     (case class_head s of
        None \<Rightarrow> None
      | Some (className, n0, r0) \<Rightarrow>
          (case opt_group (grp_word ''extends'') r0 of (extendsClass, n1, r1) \<Rightarrow>
           case opt_group (grp_word ''implements'') r1 of (implementsClass, n2, r2) \<Rightarrow>
           case opt_group (grp_upto_brace ''with'') r2 of (mixins, n3, r3) \<Rightarrow>
             Some ((className, extendsClass, implementsClass, mixins), n0 + n1 + n2 + n3)))"

text \<open>\<open>/class\s+(\w+)(?:\s+extends\s+(\w+))?(?:\s+implements\s+([^{]+))?/g\<close> of \<open>parseAndroidFile\<close>.\<close>

definition android_classRegex :: "(string \<times> string option \<times> string option) matcher" where
  "android_classRegex s =
     (case class_head s of
        None \<Rightarrow> None
      | Some (className, n0, r0) \<Rightarrow>
          (case opt_group (grp_word ''extends'') r0 of (extendsClass, n1, r1) \<Rightarrow>
           case opt_group (grp_upto_brace ''implements'') r1 of (implementsClause, n2, r2) \<Rightarrow>
             Some ((className, extendsClass, implementsClause), n0 + n1 + n2)))"

text \<open>\<open>/@([a-zA-Z]+)/g\<close>.\<close>

definition annotationRegex :: "string matcher" where
  "annotationRegex s =
     (case s of
        [] \<Rightarrow> None
      | c # r \<Rightarrow>
          (let w = takeWhile is_alpha r in
           if c = CHR ''@'' \<and> w \<noteq> [] then Some (w, 1 + length w) else None))"

definition is_quote :: "char \<Rightarrow> bool" where
  "is_quote c = (c = sq \<or> c = dq)"

text \<open>\<open>import\s+['"]\<close>, the common start of the two import expressions: the text behind it.\<close>

definition import_head :: "string \<Rightarrow> (nat \<times> string) option" where
  "import_head s =
     (case strip_prefix ''import'' s of
        None \<Rightarrow> None
      | Some r \<Rightarrow>
          (let ws = takeWhile is_space r in
           case dropWhile is_space r of
             [] \<Rightarrow> None
           | q # r1 \<Rightarrow> if ws \<noteq> [] \<and> is_quote q then Some (6 + length ws + 1, r1) else None))"

text \<open>\<open>/import\s+['"]([^'"]+)['"]/g\<close> of \<open>parseDartFile\<close>.\<close>

definition dart_importRegex :: "string matcher" where
  "dart_importRegex s =
     (case import_head s of
        None \<Rightarrow> None
      | Some (n0, r1) \<Rightarrow>
          (let p = takeWhile (\<lambda>c. \<not> is_quote c) r1 in
           case dropWhile (\<lambda>c. \<not> is_quote c) r1 of
             [] \<Rightarrow> None
           | q # r2 \<Rightarrow> if p \<noteq> [] then Some (p, n0 + length p + 1) else None))"

text \<open>\<open>/import\s+['"]package:([^\/'"]+)/g\<close> of \<open>getDartDependencies\<close>.\<close>

definition dependencyRegex :: "string matcher" where
  "dependencyRegex s =
     (case import_head s of
        None \<Rightarrow> None
      | Some (n0, r1) \<Rightarrow>
          (case strip_prefix ''package:'' r1 of
             None \<Rightarrow> None
           | Some r2 \<Rightarrow>
               (let p = takeWhile (\<lambda>c. c \<noteq> CHR ''/'' \<and> \<not> is_quote c) r2 in
                if p \<noteq> [] then Some (p, n0 + 8 + length p) else None)))"

text \<open>
  \<open>KEY="([^"]+)"\<close>, the shape of both expressions of \<open>parseAndroidManifest\<close>:
  \<open>/package="([^"]+)"/\<close> and \<open>/android:name="([^"]+)"/g\<close>.
\<close>

definition attrRegex :: "string \<Rightarrow> string matcher" where
  "attrRegex key s =
     (case strip_prefix (key @ [CHR ''='', dq]) s of
        None \<Rightarrow> None
      | Some r \<Rightarrow>
          (let v = takeWhile (\<lambda>c. c \<noteq> dq) r in
           case dropWhile (\<lambda>c. c \<noteq> dq) r of
             [] \<Rightarrow> None
           | q # r2 \<Rightarrow> if v \<noteq> [] then Some (v, length key + 2 + length v + 1) else None))"

section \<open>The manifest extractor\<close>

definition parseAndroidManifest :: "string \<Rightarrow> AndroidManifest" where
  "parseAndroidManifest content =
     \<lparr>package = match_first (attrRegex ''package'') content,
      components = Some (exec_loop (attrRegex ''android:name'') content)\<rparr>"

section \<open>The heuristic extractors\<close>

text \<open>\<open>x || ''\<close> and the truth value of an optional string.\<close>

definition or_empty :: "string option \<Rightarrow> string" where
  "or_empty x = (case x of None \<Rightarrow> [] | Some s \<Rightarrow> s)"

definition truthy :: "string option \<Rightarrow> bool" where
  "truthy x = (case x of None \<Rightarrow> False | Some s \<Rightarrow> s \<noteq> [])"

definition getDartDependencies :: "string \<Rightarrow> string list" where
  "getDartDependencies content = fold set_add (exec_loop dependencyRegex content) []"

definition stateless_pattern :: "string \<Rightarrow> string" where
  "stateless_pattern className = ''class '' @ className @ '' extends StatelessWidget''"

definition stateful_pattern :: "string \<Rightarrow> string" where
  "stateful_pattern className = ''class '' @ className @ '' extends StatefulWidget''"

text \<open>
  The body of the class loop of \<open>parseDartFile\<close>.  \<open>annotationRegex\<close> is one object
  for all iterations, so its \<open>lastIndex\<close> is part of the loop state, next to the
  \<open>fileInfo\<close> the loop pushes to; \<open>symbols?.push\<close> does nothing when \<open>symbols\<close> is absent.
\<close>

definition dart_class_step ::
    "string \<Rightarrow> (string \<times> string option \<times> string option \<times> string option) \<Rightarrow>
     FileInfo \<times> nat \<Rightarrow> FileInfo \<times> nat" where
  "dart_class_step content m st =
     (case m of (className, extendsClass, implementsClass, mixins) \<Rightarrow>
      case st of (fileInfo, lastIndex) \<Rightarrow>
       (let isWidget' =
              (has FLUTTER_WIDGETS (or_empty extendsClass)
               \<or> str_includes content (stateless_pattern className)
               \<or> str_includes content (stateful_pattern className));
            isStateless' = str_includes content (stateless_pattern className);
            isStateful' = str_includes content (stateful_pattern className);
            stateManagement' =
              find (\<lambda>pattern. str_includes content pattern
                               \<or> (truthy extendsClass \<and> str_includes (the extendsClass) pattern))
                   DART_stateManagement;
            (found, lastIndex') = exec_all annotationRegex content lastIndex;
            annotations' =
              map (\<lambda>a. ''@'' @ a) (filter (\<lambda>a. has DART_annotations (''@'' @ a)) found);
            sym = (symbol className ''class'')
              \<lparr>extends := extendsClass,
               isWidget := Some isWidget',
               isStateful := Some isStateful',
               isStateless := Some isStateless',
               stateManagement := stateManagement',
               annotations := (if annotations' \<noteq> [] then Some annotations' else None),
               dependencies := Some (getDartDependencies content)\<rparr>
        in (fileInfo\<lparr>symbols := map_option (\<lambda>ss. ss @ [sym]) (symbols fileInfo)\<rparr>,
            lastIndex')))"

definition dart_import_step ::
    "string \<Rightarrow> FileInfo \<times> string list \<Rightarrow> FileInfo \<times> string list" where
  "dart_import_step importPath st =
     (case st of (fileInfo, statePatterns) \<Rightarrow>
       (let s1 = (if str_includes importPath ''provider'' then set_add ''Provider'' statePatterns
                  else statePatterns);
            s2 = (if str_includes importPath ''bloc'' then set_add ''BLoC'' s1 else s1);
            s3 = (if str_includes importPath ''get'' then set_add ''GetX'' s2 else s2);
            s4 = (if str_includes importPath ''mobx'' then set_add ''MobX'' s3 else s3);
            s5 = (if str_includes importPath ''riverpod'' then set_add ''Riverpod'' s4 else s4)
        in (fileInfo\<lparr>imports :=
              map_option (\<lambda>is. is @ [ImportInfo importPath (Some [])]) (imports fileInfo)\<rparr>,
            s5)))"

definition parseDartFile :: "string \<Rightarrow> string \<Rightarrow> FileInfo \<Rightarrow> FileInfo" where
  "parseDartFile filePath content fileInfo =
     (let f1 = fileInfo
            \<lparr>isTestFile := Some (str_includes filePath ''_test.dart''
                                 \<or> str_includes filePath ''.test.dart''),
             hasWidgetTests := Some (str_includes content ''testWidgets(''
                                     \<or> str_includes content ''WidgetTester'')\<rparr>;
          (f2, lastIndex) =
            fold (dart_class_step content) (exec_loop dart_classRegex content) (f1, 0);
          (f3, statePatterns) =
            fold dart_import_step (exec_loop dart_importRegex content) (f2, [])
      in if statePatterns \<noteq> [] then f3\<lparr>statePattern := Some (join_comma statePatterns)\<rparr>
         else f3)"

definition android_class_step ::
    "(string \<times> string option \<times> string option) \<Rightarrow> FileInfo \<Rightarrow> FileInfo" where
  "android_class_step m fileInfo =
     (case m of (className, extendsClass, implementsClause) \<Rightarrow>
       (let androidComponent' =
              (if has ANDROID_COMPONENTS (or_empty extendsClass) then extendsClass else None);
            sym = (symbol className ''class'')
              \<lparr>extends := extendsClass, androidComponent := androidComponent'\<rparr>
        in fileInfo\<lparr>symbols := map_option (\<lambda>ss. ss @ [sym]) (symbols fileInfo)\<rparr>))"

definition parseAndroidFile :: "string \<Rightarrow> string \<Rightarrow> FileInfo \<Rightarrow> FileInfo" where
  "parseAndroidFile filePath content fileInfo =
     fold android_class_step (exec_loop android_classRegex content) fileInfo"

section \<open>The grammar-based extractor\<close>

text \<open>
  The syntax tree comes from the tree-sitter library: a node has a type, the source text
  it spans and its children (named and anonymous ones) in document order.  The traversal
  reads nothing else.  Its accumulators \<open>symbols\<close>, \<open>imports\<close>, \<open>hasJsx\<close> and
  \<open>jsxElements\<close> (a \<open>Set\<close>) are the state that \<open>processNode\<close> updates.
\<close>

datatype node = Node (ntype: string) (ntext: string) (children: "node list")

record ctx =
  acc_symbols :: "SymbolInfo list"
  acc_imports :: "import_entry list"
  acc_hasJsx :: bool
  acc_jsxElements :: "string list"

definition find_type :: "string \<Rightarrow> node list \<Rightarrow> node option" where
  "find_type t ns = find (\<lambda>n. ntype n = t) ns"

text \<open>\<open>ns[i]\<close>, which is \<open>undefined\<close> out of range.\<close>

definition child_at :: "node list \<Rightarrow> nat \<Rightarrow> node option" where
  "child_at ns i = (if i < length ns then Some (ns ! i) else None)"

text \<open>\<open>n.children.find((c) => c.type === t)?.text\<close>\<close>

definition child_text :: "string \<Rightarrow> node \<Rightarrow> string option" where
  "child_text t n = map_option ntext (find_type t (children n))"

definition push_symbol :: "SymbolInfo \<Rightarrow> ctx \<Rightarrow> ctx" where
  "push_symbol info c = c\<lparr>acc_symbols := acc_symbols c @ [info]\<rparr>"

definition push_import :: "import_entry \<Rightarrow> ctx \<Rightarrow> ctx" where
  "push_import imp c = c\<lparr>acc_imports := acc_imports c @ [imp]\<rparr>"

definition case_function_declaration :: "node \<Rightarrow> ctx \<Rightarrow> ctx" where
  "case_function_declaration node c =
     (let funcName = child_text ''identifier'' node in
      if truthy funcName then push_symbol (symbol (the funcName) ''function'') c else c)"

definition case_lexical_declaration :: "node \<Rightarrow> ctx \<Rightarrow> ctx" where
  "case_lexical_declaration node c =
     (case find_type ''variable_declarator'' (children node) of
        None \<Rightarrow> c
      | Some declarator \<Rightarrow>
          (let name' = child_text ''identifier'' declarator;
               value = find (\<lambda>n. ntype n = ''arrow_function'' \<or> ntype n = ''function'')
                            (children declarator)
           in if truthy name' \<and> value \<noteq> None
              then push_symbol (symbol (the name') ''function'') c else c))"

definition case_import_statement :: "node \<Rightarrow> ctx \<Rightarrow> ctx" where
  "case_import_statement node c =
     (let source' = map_option slice_1_m1 (child_text ''string'' node) in
      if truthy source' then
        (let specifiers' =
               map the (filter truthy
                 (map (child_text ''identifier'')
                      (filter (\<lambda>n. ntype n = ''import_specifier'') (children node))))
         in if length specifiers' > 0
            then push_import (ImportInfo (the source') (Some specifiers')) c
            else push_import (Bare (the source')) c)
      else c)"

definition case_call_expression :: "node \<Rightarrow> ctx \<Rightarrow> ctx" where
  "case_call_expression node c =
     (if map_option ntext (child_at (children node) 0) = Some ''require'' then
        (case child_at (children node) 1 of
           None \<Rightarrow> c
         | Some args \<Rightarrow>
             (case child_at (children args) 0 of
                None \<Rightarrow> c
              | Some arg \<Rightarrow>
                  if ntype arg = ''string'' then push_import (Bare (slice_1_m1 (ntext arg))) c
                  else c))
      else c)"

text \<open>The common part of the two element cases, given the name each of them reads.\<close>

definition note_element :: "string option \<Rightarrow> ctx \<Rightarrow> ctx" where
  "note_element elementName c =
     (let c1 = c\<lparr>acc_hasJsx := True\<rparr> in
      if truthy elementName \<and> \<not> has WEB_ELEMENTS (toLowerCase (the elementName))
      then c1\<lparr>acc_jsxElements := set_add (the elementName) (acc_jsxElements c1)\<rparr>
      else c1)"

definition case_jsx_element :: "node \<Rightarrow> ctx \<Rightarrow> ctx" where
  "case_jsx_element node c =
     note_element
       (case child_at (children node) 0 of
          None \<Rightarrow> None
        | Some opening \<Rightarrow> map_option ntext (child_at (children opening) 0)) c"

definition case_jsx_self_closing_element :: "node \<Rightarrow> ctx \<Rightarrow> ctx" where
  "case_jsx_self_closing_element node c =
     note_element (map_option ntext (child_at (children node) 0)) c"

definition case_jsx_fragment :: "node \<Rightarrow> ctx \<Rightarrow> ctx" where
  "case_jsx_fragment node c = c\<lparr>acc_hasJsx := True\<rparr>"

text \<open>The superclass of a class declaration, read from its heritage clause.\<close>

definition superclass_of :: "node \<Rightarrow> string option" where
  "superclass_of node =
     (case find_type ''class_heritage'' (children node) of
        None \<Rightarrow> None
      | Some heritage \<Rightarrow>
          (case find_type ''extends_clause'' (children heritage) of
             None \<Rightarrow> None
           | Some clause \<Rightarrow> child_text ''identifier'' clause))"

definition with_superclass :: "node \<Rightarrow> SymbolInfo \<Rightarrow> SymbolInfo" where
  "with_superclass node classInfo =
     (let superclass = superclass_of node in
      if truthy superclass then classInfo\<lparr>extends := superclass\<rparr> else classInfo)"

definition with_members :: "string list \<Rightarrow> string list \<Rightarrow> SymbolInfo \<Rightarrow> SymbolInfo" where
  "with_members ps ms classInfo =
     (let i1 = (if length ps > 0 then classInfo\<lparr>properties := Some ps\<rparr> else classInfo)
      in if length ms > 0 then i1\<lparr>methods := Some ms\<rparr> else i1)"

lemma find_in_set: "find P xs = Some x \<Longrightarrow> x \<in> set xs"
  by (induction xs) (auto split: if_splits)

lemma size_child: "x \<in> set (children n) \<Longrightarrow> size x < size n"
  by (cases n) (auto simp: less_Suc_eq_le size_list_estimation')

text \<open>
  \<open>processNode\<close>: the \<open>switch\<close> on the node type, in the order of the source, then the
  loop over all children.  The member loop of a class body keeps the local lists
  \<open>properties\<close> and \<open>methods\<close> and calls \<open>processNode\<close> on a nested class declaration;
  the class itself is pushed behind that loop.
\<close>

function processNode :: "node \<Rightarrow> ctx \<Rightarrow> ctx" where
  "processNode node c =
    (let c1 =
      (if ntype node = ''function_declaration'' then case_function_declaration node c
       else if ntype node = ''lexical_declaration'' then case_lexical_declaration node c
       else if ntype node = ''export_statement'' then
         (case find (\<lambda>n. ntype n \<in> set [''lexical_declaration'', ''function_declaration'',
                                        ''class_declaration'']) (children node) of
            None \<Rightarrow> c
          | Some declaration \<Rightarrow> processNode declaration c)
       else if ntype node = ''class_declaration'' then
         (let className = child_text ''identifier'' node in
          if truthy className then
            (let classInfo = with_superclass node (symbol (the className) ''class'') in
             case find_type ''class_body'' (children node) of
               None \<Rightarrow> push_symbol classInfo c
             | Some body \<Rightarrow>
                 (case fold (\<lambda>member (ps, ms, cc).
                               if ntype member = ''method_definition'' then
                                 (ps,
                                  if truthy (child_text ''property_identifier'' member)
                                  then ms @ [the (child_text ''property_identifier'' member)]
                                  else ms,
                                  cc)
                               else if ntype member = ''public_field_definition''
                                     \<or> ntype member = ''private_field_definition'' then
                                 (if truthy (child_text ''property_identifier'' member)
                                  then ps @ [the (child_text ''property_identifier'' member)]
                                  else ps,
                                  ms, cc)
                               else if ntype member = ''class_declaration'' then
                                 (ps, ms, processNode member cc)
                               else (ps, ms, cc))
                            (children body) ([], [], c) of
                    (ps, ms, c2) \<Rightarrow> push_symbol (with_members ps ms classInfo) c2))
          else c)
       else if ntype node = ''import_statement'' then case_import_statement node c
       else if ntype node = ''call_expression'' then case_call_expression node c
       else if ntype node = ''jsx_element'' then case_jsx_element node c
       else if ntype node = ''jsx_self_closing_element'' then
         case_jsx_self_closing_element node c
       else if ntype node = ''jsx_fragment'' then case_jsx_fragment node c
       else c)
     in fold processNode (children node) c1)"
  by pat_completeness auto
termination
  apply (relation "measure (\<lambda>(n, c). size n)")
  apply (auto dest!: find_in_set size_child simp: find_type_def)
  done

declare processNode.simps [simp del]

section \<open>The dispatcher\<close>

text \<open>
  \<open>path.extname\<close> of Node.js and the two tree-sitter parsers are libraries; the dispatcher
  takes them as they are.
\<close>

record host =
  extname :: "string \<Rightarrow> string"
  jsParser :: "string \<Rightarrow> node"
  tsParser :: "string \<Rightarrow> node"

definition ctx0 :: ctx where
  "ctx0 = \<lparr>acc_symbols = [], acc_imports = [], acc_hasJsx = False, acc_jsxElements = []\<rparr>"

text \<open>The end of \<open>parseFile\<close>: the accumulators of the traversal are put on \<open>fileInfo\<close>.\<close>

definition finish :: "ctx \<Rightarrow> FileInfo \<Rightarrow> FileInfo" where
  "finish c fileInfo =
     (let f1 = (if length (acc_symbols c) > 0 then fileInfo\<lparr>symbols := Some (acc_symbols c)\<rparr>
                else fileInfo);
          f2 = (if length (acc_imports c) > 0 then f1\<lparr>imports := Some (acc_imports c)\<rparr>
                else f1)
      in if acc_hasJsx c then
           (let f3 = f2\<lparr>hasJsx := Some True\<rparr> in
            if length (acc_jsxElements c) > 0
            then f3\<lparr>jsxElements := Some (acc_jsxElements c)\<rparr> else f3)
         else f2)"

text \<open>The object that \<open>parseFile\<close> starts from, given the lower-cased extension.\<close>

definition new_fileInfo :: "string \<Rightarrow> string \<Rightarrow> string \<Rightarrow> FileInfo" where
  "new_fileInfo filePath content ext =
     \<lparr>file = filePath,
      symbols = Some [],
      imports = Some [],
      hasJsx = None,
      jsxElements = None,
      isDartFile = Some (ext = ''.dart''),
      isFlutterFile = Some (ext = ''.dart'' \<and> str_includes content ''package:flutter''),
      isAndroidFile = Some (ext \<in> set [''.java'', ''.kt'', ''.xml'']),
      androidManifest = None,
      isTestFile = None,
      hasWidgetTests = None,
      statePattern = None\<rparr>"

text \<open>\<open>parseFile\<close>, given the content that \<open>readFileSync\<close> returns for the path.\<close>

definition parseFile :: "host \<Rightarrow> string \<Rightarrow> string \<Rightarrow> FileInfo" where
  "parseFile h filePath content =
     (let ext = toLowerCase (extname h filePath);
          parser = (if ext \<in> set [''.ts'', ''.tsx''] then tsParser h else jsParser h);
          fileInfo = new_fileInfo filePath content ext
      in if endsWith filePath ''AndroidManifest.xml'' then
           fileInfo\<lparr>androidManifest := Some (parseAndroidManifest content)\<rparr>
         else if isDartFile fileInfo = Some True then parseDartFile filePath content fileInfo
         else if isAndroidFile fileInfo = Some True \<and> ext \<noteq> ''.xml'' then
           parseAndroidFile filePath content fileInfo
         else finish (processNode (parser content) ctx0) fileInfo)"

section \<open>The aggregator\<close>

text \<open>
  The main loop runs over the discovered files in discovery order; a file is given by
  its path and its content.  Its state is the three module variables \<open>results\<close>,
  \<open>hasReactFiles\<close> and \<open>allCustomElements\<close> (a \<open>Set\<close>).
\<close>

record aggregate =
  results :: "FileInfo list"
  hasReactFiles :: bool
  allCustomElements :: "string list"

definition nonempty :: "'a list option \<Rightarrow> bool" where
  "nonempty x = (case x of None \<Rightarrow> False | Some xs \<Rightarrow> length xs > 0)"

definition hasContent :: "FileInfo \<Rightarrow> bool" where
  "hasContent fileInfo =
     (nonempty (symbols fileInfo) \<or> nonempty (imports fileInfo)
      \<or> nonempty (jsxElements fileInfo))"

definition import_mentions_react :: "import_entry \<Rightarrow> bool" where
  "import_mentions_react imp =
     (case imp of Bare s \<Rightarrow> str_includes s ''react''
                | ImportInfo s b \<Rightarrow> str_includes s ''react'')"

text \<open>The body of the main loop behind \<open>const fileInfo = parseFile(file)\<close>.\<close>

definition add_record :: "FileInfo \<Rightarrow> aggregate \<Rightarrow> aggregate" where
  "add_record fileInfo st =
     (if hasContent fileInfo then
        (let st1 = st\<lparr>results := results st @ [fileInfo]\<rparr>;
             st2 = (case jsxElements fileInfo of
                      None \<Rightarrow> st1
                    | Some es \<Rightarrow>
                        st1\<lparr>allCustomElements := fold set_add es (allCustomElements st1)\<rparr>)
         in if hasJsx fileInfo = Some True
               \<or> (case imports fileInfo of
                     None \<Rightarrow> False
                   | Some is \<Rightarrow> list_ex import_mentions_react is)
            then st2\<lparr>hasReactFiles := True\<rparr> else st2)
      else st)"

definition aggregate_step :: "host \<Rightarrow> string \<times> string \<Rightarrow> aggregate \<Rightarrow> aggregate" where
  "aggregate_step h f st = add_record (parseFile h (fst f) (snd f)) st"

definition aggregate0 :: aggregate where
  "aggregate0 = \<lparr>results = [], hasReactFiles = False, allCustomElements = []\<rparr>"

text \<open>The \<open>project\<close> object of the output, without the repository and package metadata.\<close>

record project =
  hasReact :: bool
  customJsxElements :: "string list"
  files :: "FileInfo list"

definition project_of :: "aggregate \<Rightarrow> project" where
  "project_of st =
     \<lparr>hasReact = hasReactFiles st,
      customJsxElements = allCustomElements st,
      files = results st\<rparr>"

definition build_project :: "host \<Rightarrow> (string \<times> string) list \<Rightarrow> project" where
  "build_project h fs = project_of (fold (aggregate_step h) fs aggregate0)"

section \<open>Example inputs\<close>

text \<open>
  \<open>path.extname\<close> of Node.js on POSIX paths: the text from the last dot of the last
  path segment on (trailing slashes apart); empty when the segment has no dot, when its
  last dot is its first character, and for the segment \<open>..\<close>.
\<close>

definition last_segment :: "string \<Rightarrow> string" where
  "last_segment path =
     rev (takeWhile (\<lambda>c. c \<noteq> CHR ''/'') (dropWhile (\<lambda>c. c = CHR ''/'') (rev path)))"

definition from_last_dot :: "string \<Rightarrow> string" where
  "from_last_dot seg = CHR ''.'' # rev (takeWhile (\<lambda>c. c \<noteq> CHR ''.'') (rev seg))"

definition posix_extname :: "string \<Rightarrow> string" where
  "posix_extname path =
     (if CHR ''.'' \<in> set (last_segment path)
         \<and> from_last_dot (last_segment path) \<noteq> last_segment path
         \<and> last_segment path \<noteq> ''..''
      then from_last_dot (last_segment path) else [])"

text \<open>
  The syntax trees of the three JavaScript contents used below, as tree-sitter returns
  them: the empty file, \<open><Foo />\<close> and \<open><div />\<close>.  A self-closing element is the
  expression of an expression statement, and its children are the token \<open><\<close>, the name
  and the token \<open>/>\<close>.  No other content is parsed below.
\<close>

definition example_parser :: "string \<Rightarrow> node" where
  "example_parser content =
     (if content = ''<Foo />'' then
        Node ''program'' ''<Foo />''
          [Node ''expression_statement'' ''<Foo />''
             [Node ''jsx_self_closing_element'' ''<Foo />''
                [Node ''<'' ''<'' [], Node ''identifier'' ''Foo'' [], Node ''/>'' ''/>'' []]]]
      else if content = ''<div />'' then
        Node ''program'' ''<div />''
          [Node ''expression_statement'' ''<div />''
             [Node ''jsx_self_closing_element'' ''<div />''
                [Node ''<'' ''<'' [], Node ''identifier'' ''div'' [], Node ''/>'' ''/>'' []]]]
      else Node ''program'' content [])"

definition example_host :: host where
  "example_host =
     \<lparr>extname = posix_extname,
      jsParser = example_parser,
      tsParser = example_parser\<rparr>"

text \<open>The syntax tree of \<open>export class A { }\<close>.\<close>

definition exported_class_tree :: node where
  "exported_class_tree =
     Node ''program'' ''export class A { }''
       [Node ''export_statement'' ''export class A { }''
          [Node ''export'' ''export'' [],
           Node ''class_declaration'' ''class A { }''
             [Node ''class'' ''class'' [],
              Node ''identifier'' ''A'' [],
              Node ''class_body'' ''{ }'' [Node ''{'' ''{'' [], Node ''}'' ''}'' []]]]]"

section \<open>Auxiliary notions for the statements\<close>

text \<open>The text of an attribute \<open>KEY="VALUE"\<close>.\<close>

definition attribute :: "string \<Rightarrow> string \<Rightarrow> string" where
  "attribute key v = key @ [CHR ''='', dq] @ v @ [dq]"

text \<open>The number of class declarations in a syntax tree.\<close>

fun class_declarations :: "node \<Rightarrow> nat" where
  "class_declarations (Node t x cs) =
     (if t = ''class_declaration'' then 1 else 0) + sum_list (map class_declarations cs)"

text \<open>
  What the class loop of \<open>parseDartFile\<close> establishes for a symbol it pushes, given the
  file text and the matches of the class expression.
\<close>

definition dart_symbol_ok ::
    "string \<Rightarrow> (string \<times> string option \<times> string option \<times> string option) list \<Rightarrow>
     SymbolInfo \<Rightarrow> bool" where
  "dart_symbol_ok c ms s =
     ((\<exists>m \<in> set ms. name s = fst m \<and> extends s = fst (snd m))
      \<and> isStateless s = Some (str_includes c (stateless_pattern (name s)))
      \<and> isStateful s = Some (str_includes c (stateful_pattern (name s)))
      \<and> stateManagement s =
               find (\<lambda>pattern. str_includes c pattern
                       \<or> (truthy (extends s) \<and> str_includes (the (extends s)) pattern))
                    DART_stateManagement)"

text \<open>
  The custom markup names of a record, and what holds of every list of such names: no
  duplicates, and no name whose lower-case form is a standard element.
\<close>

definition names_of :: "FileInfo \<Rightarrow> string list" where
  "names_of r = (case jsxElements r of None \<Rightarrow> [] | Some es \<Rightarrow> es)"

definition jsx_ok :: "string list \<Rightarrow> bool" where
  "jsx_ok es = (distinct es \<and> (\<forall>x \<in> set es. \<not> has WEB_ELEMENTS (toLowerCase x)))"

section \<open>Properties of the aggregator\<close>

lemma results_aggregate_step:
  "results (aggregate_step h f st) =
     results st @ (if hasContent (parseFile h (fst f) (snd f))
                   then [parseFile h (fst f) (snd f)] else [])"
  by (simp add: aggregate_step_def add_record_def Let_def split: option.splits)

lemma results_fold_aggregate_step:
  "results (fold (aggregate_step h) fs st) =
     results st @ filter hasContent (map (\<lambda>f. parseFile h (fst f) (snd f)) fs)"
  by (induction fs arbitrary: st) (simp_all add: results_aggregate_step)

lemma files_build_project:
  "files (build_project h fs) = filter hasContent (map (\<lambda>f. parseFile h (fst f) (snd f)) fs)"
  by (simp add: build_project_def project_of_def results_fold_aggregate_step aggregate0_def)

text \<open>
  C7.  The files list of the report is the list of the records of the discovered files,
  in discovery order, without the records that fail the content test; and a record
  passes the test exactly when it has at least one symbol, import or custom markup name.
\<close>

theorem C7_files_are_the_records_with_content:
  "files (build_project h fs) = filter hasContent (map (\<lambda>f. parseFile h (fst f) (snd f)) fs)
   \<and> hasContent r =
       (length (case symbols r of None \<Rightarrow> [] | Some xs \<Rightarrow> xs)
        + length (case imports r of None \<Rightarrow> [] | Some xs \<Rightarrow> xs)
        + length (case jsxElements r of None \<Rightarrow> [] | Some xs \<Rightarrow> xs) > 0)"
proof
  show "files (build_project h fs)
        = filter hasContent (map (\<lambda>f. parseFile h (fst f) (snd f)) fs)"
    by (rule files_build_project)
  show "hasContent r =
       (length (case symbols r of None \<Rightarrow> [] | Some xs \<Rightarrow> xs)
        + length (case imports r of None \<Rightarrow> [] | Some xs \<Rightarrow> xs)
        + length (case jsxElements r of None \<Rightarrow> [] | Some xs \<Rightarrow> xs) > 0)"
    by (auto simp: hasContent_def nonempty_def split: option.splits)
qed

section \<open>Properties of the dispatcher and of the manifest path\<close>

lemma dart_class_step_keeps:
  "file (fst (dart_class_step c m st)) = file (fst st)"
  "androidManifest (fst (dart_class_step c m st)) = androidManifest (fst st)"
  "imports (fst (dart_class_step c m st)) = imports (fst st)"
  "jsxElements (fst (dart_class_step c m st)) = jsxElements (fst st)"
  by (simp_all add: dart_class_step_def Let_def split: prod.splits)

lemma dart_import_step_keeps:
  "file (fst (dart_import_step i st)) = file (fst st)"
  "androidManifest (fst (dart_import_step i st)) = androidManifest (fst st)"
  "symbols (fst (dart_import_step i st)) = symbols (fst st)"
  "jsxElements (fst (dart_import_step i st)) = jsxElements (fst st)"
  by (simp_all add: dart_import_step_def Let_def split: prod.splits)

lemma android_class_step_keeps:
  "file (android_class_step m fi) = file fi"
  "androidManifest (android_class_step m fi) = androidManifest fi"
  "imports (android_class_step m fi) = imports fi"
  "jsxElements (android_class_step m fi) = jsxElements fi"
  by (simp_all add: android_class_step_def Let_def split: prod.splits)

lemma fold_dart_class_step_keeps:
  "file (fst (fold (dart_class_step c) ms st)) = file (fst st)"
  "androidManifest (fst (fold (dart_class_step c) ms st)) = androidManifest (fst st)"
  "imports (fst (fold (dart_class_step c) ms st)) = imports (fst st)"
  "jsxElements (fst (fold (dart_class_step c) ms st)) = jsxElements (fst st)"
  by (induction ms arbitrary: st) (simp_all add: dart_class_step_keeps)

lemma fold_dart_import_step_keeps:
  "file (fst (fold dart_import_step is st)) = file (fst st)"
  "androidManifest (fst (fold dart_import_step is st)) = androidManifest (fst st)"
  "symbols (fst (fold dart_import_step is st)) = symbols (fst st)"
  "jsxElements (fst (fold dart_import_step is st)) = jsxElements (fst st)"
  by (induction "is" arbitrary: st) (simp_all add: dart_import_step_keeps)

lemma parseDartFile_keeps:
  "file (parseDartFile p c fi) = file fi"
  "androidManifest (parseDartFile p c fi) = androidManifest fi"
  "jsxElements (parseDartFile p c fi) = jsxElements fi"
  by (simp_all add: parseDartFile_def Let_def case_prod_beta
        fold_dart_class_step_keeps fold_dart_import_step_keeps)

lemma fold_android_class_step_keeps:
  "file (fold android_class_step ms fi) = file fi"
  "androidManifest (fold android_class_step ms fi) = androidManifest fi"
  "imports (fold android_class_step ms fi) = imports fi"
  "jsxElements (fold android_class_step ms fi) = jsxElements fi"
  by (induction ms arbitrary: fi) (simp_all add: android_class_step_keeps)

lemma parseAndroidFile_keeps:
  "file (parseAndroidFile p c fi) = file fi"
  "androidManifest (parseAndroidFile p c fi) = androidManifest fi"
  "jsxElements (parseAndroidFile p c fi) = jsxElements fi"
  by (simp_all add: parseAndroidFile_def fold_android_class_step_keeps)

lemma finish_keeps:
  "file (finish c fi) = file fi"
  "androidManifest (finish c fi) = androidManifest fi"
  by (simp_all add: finish_def Let_def)

lemma file_parseFile: "file (parseFile h p c) = p"
  by (simp add: parseFile_def Let_def parseDartFile_keeps parseAndroidFile_keeps finish_keeps
        new_fileInfo_def)

lemma manifest_parseFile:
  "\<not> endsWith p ''AndroidManifest.xml'' \<Longrightarrow> androidManifest (parseFile h p c) = None"
  by (simp add: parseFile_def Let_def parseDartFile_keeps parseAndroidFile_keeps finish_keeps
        new_fileInfo_def)

lemma manifest_record:
  "endsWith p ''AndroidManifest.xml'' \<Longrightarrow>
     parseFile h p c
       = (new_fileInfo p c (toLowerCase (extname h p)))
           \<lparr>androidManifest := Some (parseAndroidManifest c)\<rparr>"
  by (simp add: parseFile_def Let_def)

text \<open>
  C5.  A path that ends in \<open>AndroidManifest.xml\<close> gets the initial record (empty symbols
  and imports, no markup names) with the manifest data attached, and that record fails
  the content test; so no record of the report has such a path or carries manifest data.
\<close>

theorem C5_manifest_record_is_never_reported:
  "(endsWith p ''AndroidManifest.xml'' \<longrightarrow>
      symbols (parseFile h p c) = Some [] \<and> imports (parseFile h p c) = Some []
      \<and> jsxElements (parseFile h p c) = None
      \<and> androidManifest (parseFile h p c) = Some (parseAndroidManifest c)
      \<and> \<not> hasContent (parseFile h p c))
   \<and> (\<forall>r \<in> set (files (build_project h fs)).
         \<not> endsWith (file r) ''AndroidManifest.xml'' \<and> androidManifest r = None)"
proof (intro conjI impI ballI)
  assume m: "endsWith p ''AndroidManifest.xml''"
  show "symbols (parseFile h p c) = Some []" "imports (parseFile h p c) = Some []"
    "jsxElements (parseFile h p c) = None"
    "androidManifest (parseFile h p c) = Some (parseAndroidManifest c)"
    using m by (simp_all add: manifest_record new_fileInfo_def)
  then show "\<not> hasContent (parseFile h p c)"
    by (simp add: hasContent_def nonempty_def)
next
  fix r assume "r \<in> set (files (build_project h fs))"
  then obtain f where r: "r = parseFile h (fst f) (snd f)" and c: "hasContent r"
    by (auto simp: files_build_project)
  have n: "\<not> endsWith (fst f) ''AndroidManifest.xml''"
  proof
    assume "endsWith (fst f) ''AndroidManifest.xml''"
    then have "\<not> hasContent r"
      unfolding r by (simp add: manifest_record new_fileInfo_def hasContent_def nonempty_def)
    with c show False by simp
  qed
  show "\<not> endsWith (file r) ''AndroidManifest.xml''"
    using n by (simp add: r file_parseFile)
  show "androidManifest r = None"
    using n by (simp add: r manifest_parseFile)
qed

theorem C5_manifest_record_witness:
  "endsWith ''android/AndroidManifest.xml'' ''AndroidManifest.xml''
   \<and> androidManifest (parseFile example_host ''android/AndroidManifest.xml''
         (''<manifest package='' @ [dq] @ ''com.app'' @ [dq] @ ''>''))
       = Some \<lparr>package = Some ''com.app'', components = Some []\<rparr>
   \<and> \<not> hasContent (parseFile example_host ''android/AndroidManifest.xml''
         (''<manifest package='' @ [dq] @ ''com.app'' @ [dq] @ ''>''))
   \<and> map file (files (build_project example_host
         [(''android/AndroidManifest.xml'', ''<manifest package='' @ [dq] @ ''com.app'' @ [dq] @ ''>''),
          (''lib/a.dart'', ''class A {}'')]))
       = [''lib/a.dart'']"
proof -
  let ?p = "''android/AndroidManifest.xml''"
  let ?c = "''<manifest package='' @ [dq] @ ''com.app'' @ [dq] @ ''>''"
  have 1: "endsWith ?p ''AndroidManifest.xml''"
    by code_simp
  have 2: "androidManifest (parseFile example_host ?p ?c) = Some (parseAndroidManifest ?c)
           \<and> \<not> hasContent (parseFile example_host ?p ?c)"
    using C5_manifest_record_is_never_reported [of ?p example_host ?c "[]"] 1 by blast
  have 3: "parseAndroidManifest ?c = \<lparr>package = Some ''com.app'', components = Some []\<rparr>"
    by code_simp
  have 4: "map file (files (build_project example_host [(?p, ?c), (''lib/a.dart'', ''class A {}'')]))
       = [''lib/a.dart'']"
    by code_simp
  show ?thesis using 1 2 3 4 by simp
qed

section \<open>Properties of the widget-language extractor\<close>

lemma exec_loop_captures:
  "x \<in> set (exec_loop m s) \<Longrightarrow> \<exists>k n. m (drop k s) = Some (x, n)"
proof (induction m s rule: exec_loop.induct)
  case (1 m s)
  show ?case
  proof (cases "s = []")
    case True
    with "1.prems" show ?thesis by simp
  next
    case False
    show ?thesis
    proof (cases "m s")
      case None
      with False "1.prems" have "x \<in> set (exec_loop m (tl s))" by simp
      from "1.IH"(1)[OF False None this] obtain k n where "m (drop k (tl s)) = Some (x, n)"
        by blast
      then have "m (drop (Suc k) s) = Some (x, n)" by (simp add: drop_Suc)
      then show ?thesis by blast
    next
      case (Some a)
      obtain c n where a: "a = (c, n)" by (cases a)
      from False Some a "1.prems"
      have "x = c \<or> x \<in> set (exec_loop m (drop (max 1 n) s))" by simp
      then show ?thesis
      proof
        assume "x = c"
        with Some a have "m (drop 0 s) = Some (x, n)" by simp
        then show ?thesis by blast
      next
        assume "x \<in> set (exec_loop m (drop (max 1 n) s))"
        from "1.IH"(2)[OF False Some a[symmetric] this]
        obtain k n' where "m (drop k (drop (max 1 n) s)) = Some (x, n')" by blast
        then have "m (drop (k + max 1 n) s) = Some (x, n')" by simp
        then show ?thesis by blast
      qed
    qed
  qed
qed

lemma sublist_of_drop: "sublist xs (drop k ys) \<Longrightarrow> sublist xs ys"
  by (meson sublist_order.order_trans suffix_drop suffix_imp_sublist)

lemma sublist_of_dropWhile: "sublist xs (dropWhile P ys) \<Longrightarrow> sublist xs ys"
  by (meson sublist_order.order_trans suffix_dropWhile suffix_imp_sublist)

lemma grp_word_sublist:
  assumes "grp_word kw r = Some (w, n)"
  shows "sublist w r"
proof -
  from assms have "w = takeWhile is_word (dropWhile is_space (drop (length kw) (dropWhile is_space r)))"
    by (simp add: grp_word_def Let_def strip_prefix_def split: if_splits)
  then have "sublist w (dropWhile is_space (drop (length kw) (dropWhile is_space r)))"
    by simp
  then show ?thesis
    by (rule sublist_of_dropWhile[OF sublist_of_drop[OF sublist_of_dropWhile]])
qed

lemma class_head_rest:
  assumes "class_head s = Some (nm, n, r)" and "sublist xs r"
  shows "sublist xs s"
proof -
  from assms(1)
  have "r = dropWhile is_word (dropWhile is_space (drop (length ''class'') s))"
    by (simp add: class_head_def Let_def strip_prefix_def split: if_splits)
  with assms(2)
  have "sublist xs (dropWhile is_word (dropWhile is_space (drop (length ''class'') s)))"
    by simp
  then show ?thesis
    by (rule sublist_of_drop[OF sublist_of_dropWhile[OF sublist_of_dropWhile]])
qed

lemma dart_classRegex_extends_sublist:
  assumes "dart_classRegex s = Some ((cn, Some e, i, w), n)"
  shows "sublist e s"
proof -
  from assms obtain n0 r0 where h: "class_head s = Some (cn, n0, r0)"
    by (auto simp: dart_classRegex_def split: option.splits prod.splits)
  with assms obtain n1 where "grp_word ''extends'' r0 = Some (e, n1)"
    by (auto simp: dart_classRegex_def opt_group_def split: option.splits prod.splits)
  then have "sublist e r0" by (rule grp_word_sublist)
  with h show ?thesis by (rule class_head_rest)
qed

lemma exec_loop_extends_sublist:
  assumes "(cn, Some e, i, w) \<in> set (exec_loop dart_classRegex c)"
  shows "sublist e c"
proof -
  from exec_loop_captures[OF assms] obtain k n
    where "dart_classRegex (drop k c) = Some ((cn, Some e, i, w), n)" by blast
  then have "sublist e (drop k c)" by (rule dart_classRegex_extends_sublist)
  then show ?thesis by (rule sublist_of_drop)
qed

lemma dart_class_step_symbols:
  assumes "symbols (fst st) = Some ss0"
  shows "\<exists>s. symbols (fst (dart_class_step c m st)) = Some (ss0 @ [s])
          \<and> name s = fst m \<and> extends s = fst (snd m)
          \<and> isStateless s = Some (str_includes c (stateless_pattern (name s)))
          \<and> isStateful s = Some (str_includes c (stateful_pattern (name s)))
          \<and> stateManagement s =
               find (\<lambda>pattern. str_includes c pattern
                       \<or> (truthy (extends s) \<and> str_includes (the (extends s)) pattern))
                    DART_stateManagement"
  using assms
  by (cases m; cases st) (simp add: dart_class_step_def Let_def symbol_def split: prod.splits)

lemma fold_dart_class_step_symbols:
  assumes "symbols (fst st) = Some ss0"
  shows "\<exists>new. symbols (fst (fold (dart_class_step c) ms st)) = Some (ss0 @ new)
          \<and> (\<forall>s \<in> set new. dart_symbol_ok c ms s)"
  using assms
proof (induction ms arbitrary: st ss0)
  case Nil
  then show ?case by simp
next
  case (Cons m ms)
  from dart_class_step_symbols[OF Cons.prems, of c m] obtain s
    where s: "symbols (fst (dart_class_step c m st)) = Some (ss0 @ [s])"
      and ok: "dart_symbol_ok c (m # ms) s"
    by (auto simp: dart_symbol_ok_def)
  from Cons.IH[OF s] obtain new
    where n: "symbols (fst (fold (dart_class_step c) ms (dart_class_step c m st))) = Some ((ss0 @ [s]) @ new)"
      and nok: "\<forall>s \<in> set new. dart_symbol_ok c ms s"
    by blast
  have "\<forall>s \<in> set new. dart_symbol_ok c (m # ms) s"
    using nok by (auto simp: dart_symbol_ok_def)
  with n ok show ?case
    by (intro exI[of _ "s # new"]) simp
qed

lemma symbols_parseDartFile:
  "symbols (parseDartFile p c fi)
     = symbols (fst (fold (dart_class_step c) (exec_loop dart_classRegex c)
         (fi\<lparr>isTestFile := Some (str_includes p ''_test.dart'' \<or> str_includes p ''.test.dart''),
             hasWidgetTests := Some (str_includes c ''testWidgets('' \<or> str_includes c ''WidgetTester'')\<rparr>, 0)))"
  by (simp add: parseDartFile_def Let_def case_prod_beta fold_dart_import_step_keeps)

lemma dart_file_symbols_ok:
  assumes "toLowerCase (extname h p) = ''.dart''" and "\<not> endsWith p ''AndroidManifest.xml''"
    and "symbols (parseFile h p c) = Some ss" and "s \<in> set ss"
  shows "dart_symbol_ok c (exec_loop dart_classRegex c) s"
proof -
  have "parseFile h p c = parseDartFile p c (new_fileInfo p c ''.dart'')"
    using assms(1,2) by (simp add: parseFile_def Let_def new_fileInfo_def)
  then have e: "symbols (parseFile h p c) = symbols (fst (fold (dart_class_step c) (exec_loop dart_classRegex c)
         ((new_fileInfo p c ''.dart'')\<lparr>isTestFile := Some (str_includes p ''_test.dart'' \<or> str_includes p ''.test.dart''),
             hasWidgetTests := Some (str_includes c ''testWidgets('' \<or> str_includes c ''WidgetTester'')\<rparr>, 0)))"
    by (simp add: symbols_parseDartFile)
  from fold_dart_class_step_symbols[of "((new_fileInfo p c ''.dart'')\<lparr>isTestFile := Some (str_includes p ''_test.dart'' \<or> str_includes p ''.test.dart''),
             hasWidgetTests := Some (str_includes c ''testWidgets('' \<or> str_includes c ''WidgetTester'')\<rparr>, 0)" "[]" c "exec_loop dart_classRegex c"]
  obtain new where "symbols (parseFile h p c) = Some new" "\<forall>s \<in> set new. dart_symbol_ok c (exec_loop dart_classRegex c) s"
    unfolding e by (auto simp: new_fileInfo_def)
  with assms(3,4) show ?thesis by simp
qed

text \<open>
  C4, as amended.  For every class symbol of a Dart file, \<open>isStateless\<close> is true exactly
  when the file text contains \<open>class NAME extends StatelessWidget\<close> for the name of the
  symbol, and \<open>isStateful\<close> is true exactly when it contains
  \<open>class NAME extends StatefulWidget\<close>.  The two tests are independent: both flags are
  true exactly when the file text contains both patterns.
\<close>

theorem C4_flags_follow_the_two_patterns:
  assumes "toLowerCase (extname h p) = ''.dart''" and "\<not> endsWith p ''AndroidManifest.xml''"
    and "symbols (parseFile h p c) = Some ss" and "s \<in> set ss"
  shows "isStateless s = Some (str_includes c (stateless_pattern (name s)))
       \<and> isStateful s = Some (str_includes c (stateful_pattern (name s)))"
  using dart_file_symbols_ok[OF assms] by (simp add: dart_symbol_ok_def)

theorem C4_flags_witness:
  "toLowerCase (extname example_host ''lib/home.dart'') = ''.dart''
   \<and> \<not> endsWith ''lib/home.dart'' ''AndroidManifest.xml''
   \<and> symbols (parseFile example_host ''lib/home.dart''
         ''class HomePage extends StatefulWidget {}'')
       = Some [\<lparr>name = ''HomePage'', kind = ''class'', properties = None, methods = None,
           extends = Some ''StatefulWidget'', isWidget = Some True, isStateful = Some True,
           isStateless = Some False, androidComponent = None, stateManagement = None,
           hasTests = None, annotations = None, dependencies = Some []\<rparr>]
   \<and> \<not> str_includes ''class HomePage extends StatefulWidget {}'' (stateless_pattern ''HomePage'')
   \<and> str_includes ''class HomePage extends StatefulWidget {}'' (stateful_pattern ''HomePage'')"
proof -
  let ?p = "''lib/home.dart''"
  let ?c = "''class HomePage extends StatefulWidget {}''"
  let ?s = "\<lparr>name = ''HomePage'', kind = ''class'', properties = None, methods = None,
           extends = Some ''StatefulWidget'', isWidget = Some True, isStateful = Some True,
           isStateless = Some False, androidComponent = None, stateManagement = None,
           hasTests = None, annotations = None, dependencies = Some []\<rparr>"
  have h1: "toLowerCase (extname example_host ?p) = ''.dart''" by code_simp
  have h2: "\<not> endsWith ?p ''AndroidManifest.xml''" by code_simp
  have h3: "symbols (parseFile example_host ?p ?c) = Some [?s]" by code_simp
  have h4: "?s \<in> set [?s]" by simp
  from C4_flags_follow_the_two_patterns [OF h1 h2 h3 h4]
  have t: "\<not> str_includes ?c (stateless_pattern ''HomePage'')
           \<and> str_includes ?c (stateful_pattern ''HomePage'')"
    by simp
  from h1 h2 h3 t show ?thesis by simp
qed

text \<open>
  C4 as stated fails: a file that keeps an old declaration in a comment contains both
  patterns for the class \<open>A\<close>, and every symbol named \<open>A\<close> is both stateless and
  stateful.
\<close>

theorem C4_both_flags_counterexample:
  "str_includes ''/* class A extends StatefulWidget */ class A extends StatelessWidget {}''
     (stateless_pattern ''A'')
   \<and> symbols (parseFile example_host ''lib/a.dart''
         ''/* class A extends StatefulWidget */ class A extends StatelessWidget {}'')
       = Some [\<lparr>name = ''A'', kind = ''class'', properties = None, methods = None,
           extends = Some ''StatefulWidget'', isWidget = Some True, isStateful = Some True,
           isStateless = Some True, androidComponent = None, stateManagement = None,
           hasTests = None, annotations = None, dependencies = Some []\<rparr>,
               \<lparr>name = ''A'', kind = ''class'', properties = None, methods = None,
           extends = Some ''StatelessWidget'', isWidget = Some True, isStateful = Some True,
           isStateless = Some True, androidComponent = None, stateManagement = None,
           hasTests = None, annotations = None, dependencies = Some []\<rparr>]"
  by code_simp

text \<open>
  C6.  For every class symbol of a Dart file, \<open>stateManagement\<close> is the first name of the
  registry, in registry order, that occurs in the file text, and absent when none occurs;
  the test on the superclass name adds nothing, since the superclass name is part of the
  file text.  The value does not depend on the symbol, so all class symbols of a file
  get the same one.
\<close>

theorem C6_stateManagement_is_file_scoped:
  assumes "toLowerCase (extname h p) = ''.dart''" and "\<not> endsWith p ''AndroidManifest.xml''"
    and "symbols (parseFile h p c) = Some ss" and "s \<in> set ss"
  shows "stateManagement s = find (\<lambda>pattern. str_includes c pattern) DART_stateManagement
       \<and> stateManagement s =
               find (\<lambda>pattern. str_includes c pattern
                       \<or> (truthy (extends s) \<and> str_includes (the (extends s)) pattern))
                    DART_stateManagement"
proof -
  from dart_file_symbols_ok[OF assms]
  obtain m where m: "m \<in> set (exec_loop dart_classRegex c)" "extends s = fst (snd m)"
    and sm: "stateManagement s =
               find (\<lambda>pattern. str_includes c pattern
                       \<or> (truthy (extends s) \<and> str_includes (the (extends s)) pattern))
                    DART_stateManagement"
    by (auto simp: dart_symbol_ok_def)
  have sub: "truthy (extends s) \<Longrightarrow> sublist (the (extends s)) c"
  proof -
    assume "truthy (extends s)"
    then obtain e where e: "extends s = Some e" by (auto simp: truthy_def split: option.splits)
    obtain cn i w where "m = (cn, Some e, i, w)"
      using m(2) e by (cases m) auto
    with m(1) have "sublist e c" by (auto intro: exec_loop_extends_sublist)
    with e show ?thesis by simp
  qed
  have "(\<lambda>pattern. str_includes c pattern
                       \<or> (truthy (extends s) \<and> str_includes (the (extends s)) pattern))
        = (\<lambda>pattern. str_includes c pattern)"
    using sub by (auto simp: str_includes_def fun_eq_iff intro: sublist_order.order_trans)
  with sm show ?thesis by simp
qed

theorem C6_stateManagement_witness:
  "toLowerCase (extname example_host ''lib/m.dart'') = ''.dart''
   \<and> \<not> endsWith ''lib/m.dart'' ''AndroidManifest.xml''
   \<and> symbols (parseFile example_host ''lib/m.dart''
         ''class M extends Cubit {} class V extends ValueNotifier {}'')
       = Some [\<lparr>name = ''M'', kind = ''class'', properties = None, methods = None,
           extends = Some ''Cubit'', isWidget = Some False, isStateful = Some False,
           isStateless = Some False, androidComponent = None, stateManagement = Some ''ValueNotifier'',
           hasTests = None, annotations = None, dependencies = Some []\<rparr>,
               \<lparr>name = ''V'', kind = ''class'', properties = None, methods = None,
           extends = Some ''ValueNotifier'', isWidget = Some True, isStateful = Some False,
           isStateless = Some False, androidComponent = None, stateManagement = Some ''ValueNotifier'',
           hasTests = None, annotations = None, dependencies = Some []\<rparr>]
   \<and> find (\<lambda>pattern. str_includes
               ''class M extends Cubit {} class V extends ValueNotifier {}'' pattern)
            DART_stateManagement
       = Some ''ValueNotifier''"
proof -
  let ?p = "''lib/m.dart''"
  let ?c = "''class M extends Cubit {} class V extends ValueNotifier {}''"
  let ?m = "\<lparr>name = ''M'', kind = ''class'', properties = None, methods = None,
           extends = Some ''Cubit'', isWidget = Some False, isStateful = Some False,
           isStateless = Some False, androidComponent = None, stateManagement = Some ''ValueNotifier'',
           hasTests = None, annotations = None, dependencies = Some []\<rparr>"
  let ?v = "\<lparr>name = ''V'', kind = ''class'', properties = None, methods = None,
           extends = Some ''ValueNotifier'', isWidget = Some True, isStateful = Some False,
           isStateless = Some False, androidComponent = None, stateManagement = Some ''ValueNotifier'',
           hasTests = None, annotations = None, dependencies = Some []\<rparr>"
  have h1: "toLowerCase (extname example_host ?p) = ''.dart''" by code_simp
  have h2: "\<not> endsWith ?p ''AndroidManifest.xml''" by code_simp
  have h3: "symbols (parseFile example_host ?p ?c) = Some [?m, ?v]" by code_simp
  have h4: "?m \<in> set [?m, ?v]" by simp
  from C6_stateManagement_is_file_scoped [OF h1 h2 h3 h4]
  have t: "find (\<lambda>pattern. str_includes ?c pattern) DART_stateManagement
           = Some ''ValueNotifier''"
    by simp
  from h1 h2 h3 t show ?thesis by simp
qed

section \<open>Properties of the custom markup registry\<close>

text \<open>The two element cases read the text of the first child (of the first child).\<close>

lemma element_name_is_first_child_text:
  "case_jsx_self_closing_element (Node ty t (Node ty1 nm cs # rest)) c
     = note_element (Some nm) c"
  "case_jsx_element (Node ty t (Node ty1 t1 (Node ty2 nm cs # rest1) # rest)) c
     = note_element (Some nm) c"
  by (simp_all add: case_jsx_self_closing_element_def case_jsx_element_def child_at_def)

lemma set_add_ok: "jsx_ok es \<Longrightarrow> \<not> has WEB_ELEMENTS (toLowerCase x) \<Longrightarrow> jsx_ok (set_add x es)"
  by (auto simp: jsx_ok_def set_add_def)

lemma note_element_ok: "jsx_ok (acc_jsxElements c) \<Longrightarrow> jsx_ok (acc_jsxElements (note_element n c))"
  by (simp add: note_element_def Let_def set_add_ok)

lemma leaf_cases_jsx:
  "acc_jsxElements (case_function_declaration n c) = acc_jsxElements c"
  "acc_jsxElements (case_lexical_declaration n c) = acc_jsxElements c"
  "acc_jsxElements (case_import_statement n c) = acc_jsxElements c"
  "acc_jsxElements (case_call_expression n c) = acc_jsxElements c"
  "acc_jsxElements (case_jsx_fragment n c) = acc_jsxElements c"
  "acc_jsxElements (push_symbol s c) = acc_jsxElements c"
  by (simp_all add: case_function_declaration_def case_lexical_declaration_def
        case_import_statement_def case_call_expression_def case_jsx_fragment_def
        push_symbol_def push_import_def Let_def split: option.splits)

lemma fold_preserves:
  assumes "\<And>x s. x \<in> set xs \<Longrightarrow> P s \<Longrightarrow> P (f x s)" and "P s"
  shows "P (fold f xs s)"
  using assms by (induction xs arbitrary: s) auto

text \<open>The member loop of a class body keeps the invariant when the visits of the members do.\<close>

lemma member_loop_preserves:
  fixes visit :: "node \<Rightarrow> ctx \<Rightarrow> ctx"
  assumes "\<And>member cc. member \<in> set members \<Longrightarrow> P cc \<Longrightarrow> P (visit member cc)"
    and "P c"
    and "fold (\<lambda>member (ps, ms, cc).
                 if ntype member = ''method_definition'' then (ps, g member ms, cc)
                 else if ntype member = ''public_field_definition''
                       \<or> ntype member = ''private_field_definition'' then (f member ps, ms, cc)
                 else if ntype member = ''class_declaration'' then (ps, ms, visit member cc)
                 else (ps, ms, cc))
            members (ps0, ms0, c) = (ps1, ms1, c1)"
  shows "P c1"
proof -
  let ?F = "\<lambda>member (ps, ms, cc).
                 if ntype member = ''method_definition'' then (ps, g member ms, cc)
                 else if ntype member = ''public_field_definition''
                       \<or> ntype member = ''private_field_definition'' then (f member ps, ms, cc)
                 else if ntype member = ''class_declaration'' then (ps, ms, visit member cc)
                 else (ps, ms, cc)"
  have "P (snd (snd (fold ?F members (ps0, ms0, c))))"
  proof (rule fold_preserves[where P="\<lambda>st. P (snd (snd st))"])
    show "P (snd (snd (ps0, ms0, c)))" using assms(2) by simp
  next
    fix member and st :: "'a \<times> 'b \<times> ctx"
    assume "member \<in> set members" and "P (snd (snd st))"
    then show "P (snd (snd (?F member st)))"
      using assms(1)[of member "snd (snd st)"] by (cases st) simp
  qed
  with assms(3) show ?thesis by simp
qed

lemma processNode_jsx_ok:
  "jsx_ok (acc_jsxElements c) \<Longrightarrow> jsx_ok (acc_jsxElements (processNode n c))"
proof (induction n arbitrary: c rule: measure_induct_rule[of size])
  case (less n)
  let ?P = "\<lambda>c. jsx_ok (acc_jsxElements c)"
  have child: "?P (processNode m c')" if "size m < size n" "?P c'" for m c'
    using less.IH that by blast
  have ifI: "?P (if b then x else y)" if "b \<Longrightarrow> ?P x" "\<not> b \<Longrightarrow> ?P y" for b x y
    using that by simp
  have optI: "?P (case opt of None \<Rightarrow> x | Some v \<Rightarrow> y v)"
    if "opt = None \<Longrightarrow> ?P x" "\<And>v. opt = Some v \<Longrightarrow> ?P (y v)" for opt :: "node option" and x y
    using that by (cases opt) simp_all
  have tripleI: "?P (case t of (ps, ms, c2) \<Rightarrow> y ps ms c2)"
    if "\<And>ps ms c2. t = (ps, ms, c2) \<Longrightarrow> ?P (y ps ms c2)"
    for t :: "string list \<times> string list \<times> ctx" and y
    using that by (cases t) simp
  show ?case
    apply (subst processNode.simps)
    apply (simp only: Let_def)
    apply (rule fold_preserves[where P="?P"])
     apply (rule child)
      apply (erule size_child)
     apply assumption
    apply (intro ifI optI tripleI)
    subgoal by (simp add: leaf_cases_jsx less.prems)
    subgoal by (simp add: leaf_cases_jsx less.prems)
    subgoal by (rule less.prems)
    subgoal for d by (rule child[OF _ less.prems]) (auto dest!: find_in_set size_child)
    subgoal by (simp add: leaf_cases_jsx less.prems)
    subgoal premises prems for body ps ms c2
    proof -
      have b: "body \<in> set (children n)"
        using prems(6) unfolding find_type_def by (rule find_in_set)
      have "jsx_ok (acc_jsxElements c2)"
      proof (rule member_loop_preserves[where P="?P" and visit=processNode
              and members="children body" and c=c and ?c1.0=c2 and ?ps0.0="[]" and ?ms0.0="[]"
              and ?ps1.0=ps and ?ms1.0=ms
              and f="\<lambda>member ps. if truthy (child_text ''property_identifier'' member)
                        then ps @ [the (child_text ''property_identifier'' member)] else ps"
              and g="\<lambda>member ms. if truthy (child_text ''property_identifier'' member)
                        then ms @ [the (child_text ''property_identifier'' member)] else ms"])
        fix member and cc :: ctx
        assume m: "member \<in> set (children body)" and cc: "jsx_ok (acc_jsxElements cc)"
        have "size member < size body" using m by (rule size_child)
        also have "size body < size n" using b by (rule size_child)
        finally show "jsx_ok (acc_jsxElements (processNode member cc))"
          using cc by (rule child)
      next
        show "jsx_ok (acc_jsxElements c)" by (rule less.prems)
      next
        show "fold (\<lambda>member (ps, ms, cc).
                 if ntype member = ''method_definition'' then
                   (ps, if truthy (child_text ''property_identifier'' member)
                        then ms @ [the (child_text ''property_identifier'' member)] else ms, cc)
                 else if ntype member = ''public_field_definition''
                       \<or> ntype member = ''private_field_definition'' then
                   (if truthy (child_text ''property_identifier'' member)
                    then ps @ [the (child_text ''property_identifier'' member)] else ps, ms, cc)
                 else if ntype member = ''class_declaration'' then (ps, ms, processNode member cc)
                 else (ps, ms, cc))
            (children body) ([], [], c) = (ps, ms, c2)"
          by (rule prems(7))
      qed
      then show ?thesis by (simp only: leaf_cases_jsx)
    qed
    subgoal by (rule less.prems)
    subgoal by (simp add: leaf_cases_jsx less.prems)
    subgoal by (simp add: leaf_cases_jsx less.prems)
    subgoal by (simp add: case_jsx_element_def note_element_ok less.prems)
    subgoal by (simp add: case_jsx_self_closing_element_def note_element_ok less.prems)
    subgoal by (simp add: leaf_cases_jsx less.prems)
    subgoal by (rule less.prems)
    done
qed

lemma fold_set_add:
  "set (fold set_add es acc) = set acc \<union> set es"
  "distinct acc \<Longrightarrow> distinct (fold set_add es acc)"
  by (induction es arbitrary: acc) (auto simp: set_add_def)

lemma jsxElements_finish:
  "jsxElements fi = None \<Longrightarrow> jsx_ok (acc_jsxElements c) \<Longrightarrow>
     jsxElements (finish c fi) = Some es \<Longrightarrow> jsx_ok es"
  by (auto simp: finish_def Let_def split: if_splits)

lemma jsxElements_parseFile:
  assumes "jsxElements (parseFile h p c) = Some es"
  shows "jsx_ok es"
proof -
  have "jsx_ok (acc_jsxElements (processNode t ctx0))" for t
    by (rule processNode_jsx_ok) (simp add: ctx0_def jsx_ok_def)
  with assms show ?thesis
    by (auto simp: parseFile_def Let_def parseDartFile_keeps parseAndroidFile_keeps
          new_fileInfo_def split: if_splits elim!: jsxElements_finish[rotated 2])
qed

lemma allCustomElements_add_record:
  "allCustomElements (add_record r st) =
     (if hasContent r then fold set_add (names_of r) (allCustomElements st)
      else allCustomElements st)"
  by (simp add: add_record_def Let_def names_of_def split: option.splits)

lemma allCustomElements_fold:
  "allCustomElements (fold (aggregate_step h) fs st)
     = fold set_add
         (concat (map names_of (filter hasContent (map (\<lambda>f. parseFile h (fst f) (snd f)) fs))))
         (allCustomElements st)"
  by (induction fs arbitrary: st)
     (simp_all add: aggregate_step_def allCustomElements_add_record)

lemma customJsxElements_build_project:
  "customJsxElements (build_project h fs)
     = fold set_add (concat (map names_of (files (build_project h fs)))) []"
  by (simp add: build_project_def project_of_def allCustomElements_fold
        results_fold_aggregate_step aggregate0_def)

text \<open>
  Whatever the trees are, the registry of the report has no duplicates, holds exactly
  the names listed by the records in the files list, and holds no name whose lower-case
  form is a standard element.
\<close>

lemma registry_is_deduplicated_union:
  "distinct (customJsxElements (build_project h fs))
   \<and> set (customJsxElements (build_project h fs))
       = (\<Union>r \<in> set (files (build_project h fs)). set (names_of r))
   \<and> (\<forall>x \<in> set (customJsxElements (build_project h fs)).
         \<not> has WEB_ELEMENTS (toLowerCase x))"
proof (intro conjI ballI)
  show "distinct (customJsxElements (build_project h fs))"
    by (simp add: customJsxElements_build_project fold_set_add)
  show u: "set (customJsxElements (build_project h fs))
       = (\<Union>r \<in> set (files (build_project h fs)). set (names_of r))"
    by (simp add: customJsxElements_build_project fold_set_add)
  fix x assume "x \<in> set (customJsxElements (build_project h fs))"
  then obtain r where r: "r \<in> set (files (build_project h fs))" "x \<in> set (names_of r)"
    unfolding u by blast
  then obtain f where "r = parseFile h (fst f) (snd f)"
    by (auto simp: files_build_project)
  with r(2) obtain es where "jsxElements (parseFile h (fst f) (snd f)) = Some es" "x \<in> set es"
    by (cases "jsxElements (parseFile h (fst f) (snd f))") (auto simp: names_of_def)
  then show "\<not> has WEB_ELEMENTS (toLowerCase x)"
    using jsxElements_parseFile by (auto simp: jsx_ok_def)
qed

section \<open>Properties of the manifest extractor\<close>

lemma exec_loop_skip:
  "(\<And>k. k < length pre \<Longrightarrow> m (drop k pre @ rest) = None) \<Longrightarrow>
     exec_loop m (pre @ rest) = exec_loop m rest"
proof (induction pre)
  case Nil
  show ?case by simp
next
  case (Cons x pre)
  from Cons.prems[of 0] have n: "m (x # pre @ rest) = None" by simp
  have "exec_loop m (pre @ rest) = exec_loop m rest"
  proof (rule Cons.IH)
    fix k assume "k < length pre"
    then show "m (drop k pre @ rest) = None" using Cons.prems[of "Suc k"] by simp
  qed
  with n show ?case by (subst exec_loop.simps) simp
qed

lemma match_first_skip:
  "(\<And>k. k < length pre \<Longrightarrow> m (drop k pre @ rest) = None) \<Longrightarrow>
     match_first m (pre @ rest) = match_first m rest"
proof (induction pre)
  case Nil
  show ?case by simp
next
  case (Cons x pre)
  from Cons.prems[of 0] have n: "m (x # pre @ rest) = None" by simp
  have "match_first m (pre @ rest) = match_first m rest"
  proof (rule Cons.IH)
    fix k assume "k < length pre"
    then show "m (drop k pre @ rest) = None" using Cons.prems[of "Suc k"] by simp
  qed
  with n show ?case by simp
qed

lemma exec_loop_hit:
  "m s = Some (c, n) \<Longrightarrow> 0 < n \<Longrightarrow> s \<noteq> [] \<Longrightarrow> exec_loop m s = c # exec_loop m (drop n s)"
  by (subst exec_loop.simps) (simp add: max_def)

lemma attrRegex_hit:
  assumes "v \<noteq> []" and "dq \<notin> set v"
  shows "attrRegex key (attribute key v @ rest) = Some (v, length (attribute key v))"
proof -
  have t: "takeWhile (\<lambda>c. c \<noteq> dq) (v @ dq # rest) = v"
    using assms(2) by (induction v) auto
  have d: "dropWhile (\<lambda>c. c \<noteq> dq) (v @ dq # rest) = dq # rest"
    using assms(2) by (induction v) auto
  have p: "strip_prefix (key @ [CHR ''='', dq]) (attribute key v @ rest) = Some (v @ dq # rest)"
    by (simp add: strip_prefix_def attribute_def)
  show ?thesis
    unfolding attrRegex_def p by (simp add: t d assms(1) Let_def attribute_def)
qed

lemma attrRegex_miss:
  "\<not> prefix (key @ [CHR ''='', dq]) s \<Longrightarrow> attrRegex key s = None"
  by (simp add: attrRegex_def strip_prefix_def)

lemma no_straddle_gen:
  assumes "N \<noteq> []" and "last N \<notin> set (butlast N)" and "\<not> sublist N pre"
    and "k < length pre"
  shows "\<not> prefix N (drop k pre @ N @ rest)"
proof
  let ?d = "drop k pre"
  assume p: "prefix N (?d @ N @ rest)"
  have dpos: "0 < length ?d" using assms(4) by simp
  show False
  proof (cases "length N \<le> length ?d")
    case True
    have "prefix N ?d"
      by (rule prefix_length_prefix[OF p _ True]) simp
    then have "sublist N ?d" by (rule prefix_imp_sublist)
    then have "sublist N pre"
      by (meson sublist_order.order_trans suffix_drop suffix_imp_sublist)
    with assms(3) show False by simp
  next
    case False
    then have lt: "length ?d < length N" by simp
    define i where "i = length N - 1"
    have i: "i < length N" using assms(1) by (simp add: i_def)
    have j: "i - length ?d < length (butlast N)" using dpos lt by (simp add: i_def)
    have j': "i - length ?d < length N" using i by arith
    from p obtain zs where zs: "?d @ N @ rest = N @ zs" by (auto simp: prefix_def)
    have "N ! i = (N @ zs) ! i" using i by (simp add: nth_append)
    also have "\<dots> = (?d @ N @ rest) ! i" by (simp only: zs)
    also have "\<dots> = (N @ rest) ! (i - length ?d)"
      using lt by (simp add: nth_append i_def)
    also have "\<dots> = N ! (i - length ?d)"
      using j' by (simp only: nth_append if_True)
    also have "\<dots> = butlast N ! (i - length ?d)"
      using j by (simp add: nth_butlast)
    finally have "N ! i \<in> set (butlast N)" using j by (metis nth_mem)
    moreover have "N ! i = last N" using assms(1) by (simp add: i_def last_conv_nth)
    ultimately show False using assms(2) by simp
  qed
qed

lemma no_straddle:
  assumes "dq \<notin> set key" and "\<not> sublist (key @ [CHR ''='', dq]) pre" and "k < length pre"
  shows "\<not> prefix (key @ [CHR ''='', dq]) (drop k pre @ (key @ [CHR ''='', dq]) @ rest)"
proof (rule no_straddle_gen[OF _ _ assms(2,3)])
  show "key @ [CHR ''='', dq] \<noteq> []" by simp
  have "butlast (key @ [CHR ''='', dq]) = key @ [CHR ''='']"
    by (simp add: butlast_append)
  then show "last (key @ [CHR ''='', dq]) \<notin> set (butlast (key @ [CHR ''='', dq]))"
    using assms(1) by (simp add: dq_def)
qed

lemma attr_skip:
  assumes "dq \<notin> set key" and "\<not> sublist (key @ [CHR ''='', dq]) pre" and "k < length pre"
  shows "attrRegex key (drop k pre @ attribute key v @ rest) = None"
proof -
  have "attribute key v @ rest = (key @ [CHR ''='', dq]) @ (v @ dq # rest)"
    by (simp add: attribute_def)
  with no_straddle[OF assms, of "v @ dq # rest"] show ?thesis
    by (intro attrRegex_miss) simp
qed

lemma attr_none:
  assumes "\<not> sublist (key @ [CHR ''='', dq]) s"
  shows "exec_loop (attrRegex key) s = []" and "match_first (attrRegex key) s = None"
proof -
  have n: "attrRegex key (drop k s @ []) = None" for k
  proof (rule attrRegex_miss)
    show "\<not> prefix (key @ [CHR ''='', dq]) (drop k s @ [])"
      using assms
      by (metis append_Nil2 prefix_imp_sublist sublist_order.order_trans suffix_drop suffix_imp_sublist)
  qed
  from exec_loop_skip[of s "attrRegex key" "[]"] n show "exec_loop (attrRegex key) s = []"
    by simp
  from match_first_skip[of s "attrRegex key" "[]"] n show "match_first (attrRegex key) s = None"
    by simp
qed

lemma components_two:
  assumes "dq \<notin> set key"
    and "v1 \<noteq> []" "dq \<notin> set v1" "v2 \<noteq> []" "dq \<notin> set v2"
    and "\<not> sublist (key @ [CHR ''='', dq]) pre"
    and "\<not> sublist (key @ [CHR ''='', dq]) mid"
    and "\<not> sublist (key @ [CHR ''='', dq]) post"
  shows "exec_loop (attrRegex key) (pre @ attribute key v1 @ mid @ attribute key v2 @ post)
         = [v1, v2]"
proof -
  let ?m = "attrRegex key"
  have ne: "attribute key v @ r \<noteq> []" "0 < length (attribute key v)" for v r
    by (simp_all add: attribute_def)
  have "exec_loop ?m (pre @ attribute key v1 @ mid @ attribute key v2 @ post)
        = exec_loop ?m (attribute key v1 @ mid @ attribute key v2 @ post)"
    by (rule exec_loop_skip) (rule attr_skip[OF assms(1) assms(6)])
  also have "\<dots> = v1 # exec_loop ?m (mid @ attribute key v2 @ post)"
    using exec_loop_hit[of ?m "attribute key v1 @ mid @ attribute key v2 @ post" v1
            "length (attribute key v1)"] attrRegex_hit[OF assms(2,3)] ne
    by simp
  also have "exec_loop ?m (mid @ attribute key v2 @ post) = exec_loop ?m (attribute key v2 @ post)"
    by (rule exec_loop_skip) (rule attr_skip[OF assms(1) assms(7)])
  also have "\<dots> = v2 # exec_loop ?m post"
    using exec_loop_hit[of ?m "attribute key v2 @ post" v2 "length (attribute key v2)"]
      attrRegex_hit[OF assms(4,5)] ne
    by simp
  also have "exec_loop ?m post = []" by (rule attr_none(1)[OF assms(8)])
  finally show ?thesis .
qed

lemma package_first:
  assumes "dq \<notin> set key" and "v \<noteq> []" "dq \<notin> set v"
    and "\<not> sublist (key @ [CHR ''='', dq]) a"
  shows "match_first (attrRegex key) (a @ attribute key v @ b) = Some v"
proof -
  have "match_first (attrRegex key) (a @ attribute key v @ b)
        = match_first (attrRegex key) (attribute key v @ b)"
    by (rule match_first_skip) (rule attr_skip[OF assms(1) assms(4)])
  also have "\<dots> = Some v"
    using attrRegex_hit[OF assms(2,3), of key b]
    by (cases "attribute key v @ b") (simp_all add: attribute_def)
  finally show ?thesis .
qed

text \<open>
  C9.  When \<open>package="com.app"\<close> is the first package attribute of the content and the
  content has exactly two \<open>android:name\<close> attributes, with the non-empty values \<open>v1\<close>
  and \<open>v2\<close> in this order (equal or not), the manifest extractor returns the package
  \<open>com.app\<close> and the components \<open>[v1, v2]\<close>.  When the content has no package
  attribute, the \<open>package\<close> field is absent.
\<close>

theorem C9_manifest_package_and_components:
  "(content = a @ attribute ''package'' ''com.app'' @ b
    \<and> \<not> str_includes a (''package='' @ [dq])
    \<and> content = pre @ attribute ''android:name'' v1 @ mid @ attribute ''android:name'' v2 @ post
    \<and> v1 \<noteq> [] \<and> dq \<notin> set v1 \<and> v2 \<noteq> [] \<and> dq \<notin> set v2
    \<and> \<not> str_includes pre (''android:name='' @ [dq])
    \<and> \<not> str_includes mid (''android:name='' @ [dq])
    \<and> \<not> str_includes post (''android:name='' @ [dq])
    \<longrightarrow> parseAndroidManifest content
          = \<lparr>package = Some ''com.app'', components = Some [v1, v2]\<rparr>)
   \<and> (\<not> str_includes content (''package='' @ [dq])
        \<longrightarrow> package (parseAndroidManifest content) = None)"
proof (intro conjI impI)
  assume h: "content = a @ attribute ''package'' ''com.app'' @ b
    \<and> \<not> str_includes a (''package='' @ [dq])
    \<and> content = pre @ attribute ''android:name'' v1 @ mid @ attribute ''android:name'' v2 @ post
    \<and> v1 \<noteq> [] \<and> dq \<notin> set v1 \<and> v2 \<noteq> [] \<and> dq \<notin> set v2
    \<and> \<not> str_includes pre (''android:name='' @ [dq])
    \<and> \<not> str_includes mid (''android:name='' @ [dq])
    \<and> \<not> str_includes post (''android:name='' @ [dq])"
  have k1: "dq \<notin> set ''package''" and k2: "dq \<notin> set ''android:name''"
    by (simp_all add: dq_def)
  have v: "''com.app'' \<noteq> []" "dq \<notin> set ''com.app''" by (simp_all add: dq_def)
  have "match_first (attrRegex ''package'') (a @ attribute ''package'' ''com.app'' @ b)
        = Some ''com.app''"
    using h by (intro package_first[OF k1 v]) (simp add: str_includes_def)
  moreover have "exec_loop (attrRegex ''android:name'')
           (pre @ attribute ''android:name'' v1 @ mid @ attribute ''android:name'' v2 @ post)
         = [v1, v2]"
    using h by (intro components_two[OF k2]) (simp_all add: str_includes_def)
  ultimately show "parseAndroidManifest content
          = \<lparr>package = Some ''com.app'', components = Some [v1, v2]\<rparr>"
    using h unfolding parseAndroidManifest_def by metis
next
  assume "\<not> str_includes content (''package='' @ [dq])"
  then show "package (parseAndroidManifest content) = None"
    by (simp add: parseAndroidManifest_def str_includes_def attr_none(2))
qed

theorem C9_manifest_witness:
  "parseAndroidManifest
     (''<manifest package='' @ [dq] @ ''com.app'' @ [dq] @ ''><activity android:name='' @ [dq]
      @ ''.Main'' @ [dq] @ ''/><service android:name='' @ [dq] @ ''.Main'' @ [dq] @ ''/>'')
   = \<lparr>package = Some ''com.app'', components = Some [''.Main'', ''.Main'']\<rparr>"
proof -
  let ?content = "''<manifest package='' @ [dq] @ ''com.app'' @ [dq] @ ''><activity android:name='' @ [dq]
      @ ''.Main'' @ [dq] @ ''/><service android:name='' @ [dq] @ ''.Main'' @ [dq] @ ''/>''"
  have "?content = ''<manifest '' @ attribute ''package'' ''com.app''
           @ (''><activity android:name='' @ [dq] @ ''.Main'' @ [dq] @ ''/><service android:name=''
              @ [dq] @ ''.Main'' @ [dq] @ ''/>'')
    \<and> \<not> str_includes ''<manifest '' (''package='' @ [dq])
    \<and> ?content = (''<manifest package='' @ [dq] @ ''com.app'' @ [dq] @ ''><activity '')
          @ attribute ''android:name'' ''.Main'' @ ''/><service ''
          @ attribute ''android:name'' ''.Main'' @ ''/>''
    \<and> ''.Main'' \<noteq> [] \<and> dq \<notin> set ''.Main'' \<and> ''.Main'' \<noteq> [] \<and> dq \<notin> set ''.Main''
    \<and> \<not> str_includes (''<manifest package='' @ [dq] @ ''com.app'' @ [dq] @ ''><activity '')
          (''android:name='' @ [dq])
    \<and> \<not> str_includes ''/><service '' (''android:name='' @ [dq])
    \<and> \<not> str_includes ''/>'' (''android:name='' @ [dq])"
    by code_simp
  with C9_manifest_package_and_components show ?thesis by blast
qed

section \<open>Where the extractors differ from the specification\<close>

text \<open>
  C1.  The class declaration of an export statement is dispatched explicitly by
  \<open>processNode\<close> and then visited again by the loop over the children, so its symbol is
  pushed twice: the one class declaration of \<open>export class A { }\<close> gives two class
  symbols.
\<close>

theorem C1_class_emitted_twice:
  "class_declarations exported_class_tree = 1
   \<and> map name (acc_symbols (processNode exported_class_tree ctx0)) = [''A'', ''A'']
   \<and> map kind (acc_symbols (processNode exported_class_tree ctx0)) = [''class'', ''class'']"
  by code_simp

text \<open>
  C8.  The two element cases of \<open>processNode\<close> read the text of the first child, which
  is the token \<open><\<close> and not the name.  For a project of two files that use the element
  \<open>Foo\<close> and one file that uses \<open>div\<close> only, every record lists the name \<open><\<close>, all
  three files are kept, and the registry holds \<open><\<close> and not \<open>Foo\<close>.
\<close>

theorem C8_registry_holds_the_tag_token:
  "customJsxElements (build_project example_host
      [(''src/a.jsx'', ''<Foo />''), (''src/b.jsx'', ''<Foo />''), (''src/c.jsx'', ''<div />'')])
     = [''<'']
   \<and> map file (files (build_project example_host
      [(''src/a.jsx'', ''<Foo />''), (''src/b.jsx'', ''<Foo />''), (''src/c.jsx'', ''<div />'')]))
     = [''src/a.jsx'', ''src/b.jsx'', ''src/c.jsx'']
   \<and> jsxElements (parseFile example_host ''src/a.jsx'' ''<Foo />'') = Some [''<'']
   \<and> jsxElements (parseFile example_host ''src/c.jsx'' ''<div />'') = Some [''<'']"
  by code_simp

text \<open>
  C2.  The import loop of \<open>parseDartFile\<close> pushes an \<open>ImportInfo\<close> whose \<open>specifiers\<close>
  is the empty list, where \<open>processNode\<close> pushes the bare source.
\<close>

theorem C2_dart_import_has_empty_specifiers:
  "imports (parseFile example_host ''lib/main.dart''
      (''import '' @ [sq] @ ''package:flutter/material.dart'' @ [sq] @ '';''))
   = Some [ImportInfo ''package:flutter/material.dart'' (Some [])]"
  by code_simp

text \<open>
  C3.  \<open>parseFile\<close> starts from a record with \<open>symbols: []\<close> and \<open>imports: []\<close>, which
  stay when nothing is found (a JavaScript, a Dart or a Java file), and the
  \<open>dependencies\<close> of a Dart class are the empty list when the file imports no package.
\<close>

theorem C3_empty_collections_are_present:
  "symbols (parseFile example_host ''src/empty.js'' '''') = Some []
   \<and> imports (parseFile example_host ''src/empty.js'' '''') = Some []
   \<and> imports (parseFile example_host ''lib/a.dart'' ''class A {}'') = Some []
   \<and> map dependencies (the (symbols (parseFile example_host ''lib/a.dart'' ''class A {}'')))
       = [Some []]
   \<and> symbols (parseFile example_host ''app/Main.java'' '''') = Some []"
  by code_simp

end
